theory Spec2Isabelle
  imports Main
begin

section \<open>Values exchanged with the webhook\<close>

text \<open>
  The module \<^verbatim>\<open>hitl_webhook.py\<close> handles values produced by the JSON decoder:
  \<^verbatim>\<open>None\<close>, booleans, integers, strings, lists and dictionaries with string keys.
  A dictionary keeps its insertion order, so it is an association list; \<^verbatim>\<open>dict.get\<close>
  reads the first binding of a key. A Python string is a \<open>string\<close> whose characters
  stand for the code points below 256. Numbers are Python integers; numbers with a
  fraction or an exponent are not part of this development.
\<close>

datatype json =
    JNull
  | JBool bool
  | JInt int
  | JStr string
  | JArr "json list"
  | JObj "(string \<times> json) list"

text \<open>The exception classes that the module can meet.\<close>

datatype py_exn =
    JSONDecodeError
  | OSError
  | UnicodeDecodeError
  | RecursionError
  | AttributeError
  | TypeError
  | ValueError
  | RuntimeError

subsection \<open>Truth value, \<^verbatim>\<open>or\<close>, \<^verbatim>\<open>dict.get\<close>\<close>

fun truthy :: "json \<Rightarrow> bool" where
  "truthy JNull = False"
| "truthy (JBool b) = b"
| "truthy (JInt i) = (i \<noteq> 0)"
| "truthy (JStr s) = (s \<noteq> [])"
| "truthy (JArr xs) = (xs \<noteq> [])"
| "truthy (JObj kvs) = (kvs \<noteq> [])"

definition py_or :: "json \<Rightarrow> json \<Rightarrow> json" where
  "py_or a b = (if truthy a then a else b)"

definition dict_get :: "(string \<times> json) list \<Rightarrow> string \<Rightarrow> json" where
  "dict_get kvs k = (case map_of kvs k of None \<Rightarrow> JNull | Some v \<Rightarrow> v)"

subsection \<open>Text of a value: \<^verbatim>\<open>str\<close> and \<^verbatim>\<open>repr\<close>\<close>

definition digit_char :: "nat \<Rightarrow> char" where
  "digit_char d = char_of (48 + d)"

fun str_nat :: "nat \<Rightarrow> string" where
  "str_nat n = (if n < 10 then [digit_char n] else str_nat (n div 10) @ [digit_char (n mod 10)])"

declare str_nat.simps [simp del]

definition str_int :: "int \<Rightarrow> string" where
  "str_int i = (if i < 0 then CHR ''-'' # str_nat (nat (- i)) else str_nat (nat i))"

definition hex_char :: "nat \<Rightarrow> char" where
  "hex_char d = (if d < 10 then char_of (48 + d) else char_of (87 + d))"

definition hex2 :: "char \<Rightarrow> string" where
  "hex2 c = [hex_char (of_char c div 16), hex_char (of_char c mod 16)]"

text \<open>
  \<^verbatim>\<open>str.isprintable\<close> on the code points below 256: the controls, the delete
  character, the range 128 to 160 and the soft hyphen 173 are not printable.
\<close>

definition printable :: "char \<Rightarrow> bool" where
  "printable c = (let n = (of_char c :: nat) in
     32 \<le> n \<and> n \<noteq> 127 \<and> \<not> (128 \<le> n \<and> n \<le> 160) \<and> n \<noteq> 173)"

definition repr_char :: "char \<Rightarrow> char \<Rightarrow> string" where
  "repr_char q c =
     (if c = CHR 0x5C then [CHR 0x5C, CHR 0x5C]
      else if c = q then [CHR 0x5C, q]
      else if c = CHR 0x09 then [CHR 0x5C, CHR ''t'']
      else if c = CHR 0x0A then [CHR 0x5C, CHR ''n'']
      else if c = CHR 0x0D then [CHR 0x5C, CHR ''r'']
      else if printable c then [c]
      else [CHR 0x5C, CHR ''x''] @ hex2 c)"

definition repr_str :: "string \<Rightarrow> string" where
  "repr_str s =
     (let q = (if CHR 0x27 \<in> set s \<and> CHR 0x22 \<notin> set s then CHR 0x22 else CHR 0x27)
      in [q] @ concat (map (repr_char q) s) @ [q])"

fun join :: "string \<Rightarrow> string list \<Rightarrow> string" where
  "join sep [] = []"
| "join sep [x] = x"
| "join sep (x # y # ys) = x @ sep @ join sep (y # ys)"

fun py_repr :: "json \<Rightarrow> string" where
  "py_repr JNull = ''None''"
| "py_repr (JBool b) = (if b then ''True'' else ''False'')"
| "py_repr (JInt i) = str_int i"
| "py_repr (JStr s) = repr_str s"
| "py_repr (JArr xs) = ''['' @ join '', '' (map py_repr xs) @ '']''"
| "py_repr (JObj kvs) =
     ''{'' @ join '', '' (map (\<lambda>(k, v). repr_str k @ '': '' @ py_repr v) kvs) @ ''}''"

definition py_str :: "json \<Rightarrow> string" where
  "py_str v = (case v of JStr s \<Rightarrow> s | _ \<Rightarrow> py_repr v)"

section \<open>The review-task classifier\<close>

text \<open>
  \<^verbatim>\<open>_REVIEW_TASK_PATTERN = re.compile(r"review", re.IGNORECASE)\<close>. The pattern is a
  literal word; \<^verbatim>\<open>search\<close> tries every start position of the text, and a character of
  the text matches a pattern letter when their lower-case forms agree.
\<close>

definition lower :: "char \<Rightarrow> char" where
  "lower c = (let n = (of_char c :: nat) in if 65 \<le> n \<and> n \<le> 90 then char_of (n + 32) else c)"

fun match_here :: "string \<Rightarrow> string \<Rightarrow> bool" where
  "match_here [] s = True"
| "match_here (p # ps) [] = False"
| "match_here (p # ps) (c # cs) = (lower c = lower p \<and> match_here ps cs)"

fun search_ignorecase :: "string \<Rightarrow> string \<Rightarrow> bool" where
  "search_ignorecase pat [] = match_here pat []"
| "search_ignorecase pat (c # cs) = (match_here pat (c # cs) \<or> search_ignorecase pat cs)"

definition REVIEW_TASK_PATTERN :: string where
  "REVIEW_TASK_PATTERN = ''review''"

definition is_review_task :: "(string \<times> json) list \<Rightarrow> bool" where
  "is_review_task body =
     (let name = py_or (py_or (dict_get body ''name'') (dict_get body ''task_id'')) (JStr [])
      in search_ignorecase REVIEW_TASK_PATTERN (py_str name))"

subsection \<open>Equality of values: \<^verbatim>\<open>==\<close>\<close>

text \<open>
  Python compares a boolean with an integer by value (\<^verbatim>\<open>True == 1\<close>), lists element by
  element, and dictionaries by their size and the values under each key.
\<close>

fun py_eq :: "json \<Rightarrow> json \<Rightarrow> bool"
  and py_eq_list :: "json list \<Rightarrow> json list \<Rightarrow> bool"
  and py_eq_items :: "(string \<times> json) list \<Rightarrow> (string \<times> json) list \<Rightarrow> bool" where
  "py_eq JNull JNull = True"
| "py_eq (JBool a) (JBool b) = (a = b)"
| "py_eq (JBool a) (JInt j) = ((if a then 1 else 0) = j)"
| "py_eq (JInt i) (JBool b) = (i = (if b then 1 else 0))"
| "py_eq (JInt i) (JInt j) = (i = j)"
| "py_eq (JStr s) (JStr t) = (s = t)"
| "py_eq (JArr xs) (JArr ys) = py_eq_list xs ys"
| "py_eq (JObj a) (JObj b) = (length a = length b \<and> py_eq_items a b)"
| "py_eq _ _ = False"
| "py_eq_list [] [] = True"
| "py_eq_list (x # xs) (y # ys) = (py_eq x y \<and> py_eq_list xs ys)"
| "py_eq_list _ _ = False"
| "py_eq_items [] b = True"
| "py_eq_items ((k, v) # a) b =
     ((case map_of b k of None \<Rightarrow> False | Some w \<Rightarrow> py_eq v w) \<and> py_eq_items a b)"

section \<open>Extraction of a pending approval\<close>

subsection \<open>\<^verbatim>\<open>json.dumps(content, indent=2)\<close>\<close>

text \<open>
  The encoder escapes every character outside the printable ASCII range
  (\<^verbatim>\<open>ensure_ascii\<close>), separates items by a comma and a line break, and indents each
  nesting level by two spaces; an empty list or dictionary is written without a break.
\<close>

definition json_escape :: "char \<Rightarrow> string" where
  "json_escape c =
     (if c = CHR 0x22 then [CHR 0x5C, CHR 0x22]
      else if c = CHR 0x5C then [CHR 0x5C, CHR 0x5C]
      else if c = CHR 0x0A then [CHR 0x5C, CHR ''n'']
      else if c = CHR 0x0D then [CHR 0x5C, CHR ''r'']
      else if c = CHR 0x09 then [CHR 0x5C, CHR ''t'']
      else if c = CHR 0x08 then [CHR 0x5C, CHR ''b'']
      else if c = CHR 0x0C then [CHR 0x5C, CHR ''f'']
      else if 32 \<le> (of_char c :: nat) \<and> (of_char c :: nat) \<le> 126 then [c]
      else [CHR 0x5C, CHR ''u'', CHR ''0'', CHR ''0''] @ hex2 c)"

definition json_string :: "string \<Rightarrow> string" where
  "json_string s = [CHR 0x22] @ concat (map json_escape s) @ [CHR 0x22]"

definition newline_indent :: "nat \<Rightarrow> string" where
  "newline_indent level = CHR 0x0A # replicate (2 * level) CHR '' ''"

fun dumps_at :: "nat \<Rightarrow> json \<Rightarrow> string" where
  "dumps_at level JNull = ''null''"
| "dumps_at level (JBool b) = (if b then ''true'' else ''false'')"
| "dumps_at level (JInt i) = str_int i"
| "dumps_at level (JStr s) = json_string s"
| "dumps_at level (JArr xs) =
     (if xs = [] then ''[]''
      else ''['' @ newline_indent (Suc level)
        @ join ('','' @ newline_indent (Suc level)) (map (dumps_at (Suc level)) xs)
        @ newline_indent level @ '']'')"
| "dumps_at level (JObj kvs) =
     (if kvs = [] then ''{}''
      else ''{'' @ newline_indent (Suc level)
        @ join ('','' @ newline_indent (Suc level))
            (map (\<lambda>(k, v). json_string k @ '': '' @ dumps_at (Suc level) v) kvs)
        @ newline_indent level @ ''}'')"

definition json_dumps_indent2 :: "json \<Rightarrow> string" where
  "json_dumps_indent2 v = dumps_at 0 v"

subsection \<open>\<^verbatim>\<open>_extract_from_task_payload\<close>\<close>

definition isinstance_dict :: "json \<Rightarrow> bool" where
  "isinstance_dict v = (case v of JObj _ \<Rightarrow> True | _ \<Rightarrow> False)"

definition NO_OUTPUT :: string where
  "NO_OUTPUT = ''(No output in task webhook)''"

definition extract_from_task_payload :: "(string \<times> json) list \<Rightarrow> (string \<times> json) list option" where
  "extract_from_task_payload body =
     (let execution_id = py_or (dict_get body ''kickoff_id'') (dict_get body ''execution_id'');
          task_id = py_or (py_or (dict_get body ''name'') (dict_get body ''task_id''))
                      (JStr ''request_review'');
          content = py_or (dict_get body ''output'') (dict_get body ''summary'');
          content = (if isinstance_dict content then JStr (json_dumps_indent2 content) else content);
          content = (if \<not> truthy content then JStr NO_OUTPUT else content)
      in if \<not> truthy execution_id then None
         else Some [(''execution_id'', execution_id),
                    (''task_id'', JStr (py_str task_id)),
                    (''content'', content),
                    (''raw'', JObj body)])"

section \<open>The pending-approval store\<close>

text \<open>
  The store is the file \<^verbatim>\<open>_HITL_STORE\<close>. Its state is what opening and decoding it
  gives: the file is missing, or reading it raises an exception, or \<^verbatim>\<open>json.load\<close>
  returns a value. \<^verbatim>\<open>json.dump\<close> followed by \<^verbatim>\<open>json.load\<close> returns the value
  that was written, so a successful write leaves the file holding that value. Opening
  the file for writing raises \<^verbatim>\<open>OSError\<close> when the path is not writable, and then
  the file is as it was.
\<close>

datatype store_file = Missing | Faulty py_exn | Holds json

record disk =
  hitl_store :: store_file
  writable :: bool

definition read_store :: "disk \<Rightarrow> py_exn + json" where
  "read_store d =
     (case hitl_store d of
        Missing \<Rightarrow> Inr (JArr [])
      | Faulty e \<Rightarrow> (if e = JSONDecodeError \<or> e = OSError then Inr (JArr []) else Inl e)
      | Holds v \<Rightarrow> Inr v)"

definition write_store :: "json \<Rightarrow> disk \<Rightarrow> (py_exn + unit) \<times> disk" where
  "write_store data d =
     (if writable d then (Inr (), d\<lparr>hitl_store := Holds data\<rparr>) else (Inl OSError, d))"

definition get_pending_approvals :: "disk \<Rightarrow> py_exn + json" where
  "get_pending_approvals d = read_store d"

text \<open>
  Iterating over a value, as the list comprehensions do: a list gives its elements, a
  dictionary its keys, a string its characters; nothing else can be iterated.
\<close>

definition py_iter :: "json \<Rightarrow> py_exn + json list" where
  "py_iter v =
     (case v of
        JArr xs \<Rightarrow> Inr xs
      | JObj kvs \<Rightarrow> Inr (map (\<lambda>(k, _). JStr k) kvs)
      | JStr s \<Rightarrow> Inr (map (\<lambda>c. JStr [c]) s)
      | _ \<Rightarrow> Inl TypeError)"

text \<open>
  The test of both comprehensions,
  \<^verbatim>\<open>a.get("execution_id") == execution_id and a.get("task_id") == task_id\<close>:
  only a dictionary has \<^verbatim>\<open>get\<close>.
\<close>

definition approval_matches :: "json \<Rightarrow> json \<Rightarrow> json \<Rightarrow> py_exn + bool" where
  "approval_matches execution_id task_id a =
     (case a of
        JObj kvs \<Rightarrow> Inr (py_eq (dict_get kvs ''execution_id'') execution_id
                        \<and> py_eq (dict_get kvs ''task_id'') task_id)
      | _ \<Rightarrow> Inl AttributeError)"

fun without_approval :: "json \<Rightarrow> json \<Rightarrow> json list \<Rightarrow> py_exn + json list" where
  "without_approval execution_id task_id [] = Inr []"
| "without_approval execution_id task_id (a # as) =
     (case approval_matches execution_id task_id a of
        Inl e \<Rightarrow> Inl e
      | Inr m \<Rightarrow>
          (case without_approval execution_id task_id as of
             Inl e \<Rightarrow> Inl e
           | Inr rest \<Rightarrow> Inr (if m then rest else a # rest)))"

definition remove_approval :: "json \<Rightarrow> json \<Rightarrow> disk \<Rightarrow> (py_exn + unit) \<times> disk" where
  "remove_approval execution_id task_id d =
     (case read_store d of
        Inl e \<Rightarrow> (Inl e, d)
      | Inr stored \<Rightarrow>
          (case py_iter stored of
             Inl e \<Rightarrow> (Inl e, d)
           | Inr items \<Rightarrow>
               (case without_approval execution_id task_id items of
                  Inl e \<Rightarrow> (Inl e, d)
                | Inr data \<Rightarrow> write_store (JArr data) d)))"

section \<open>The webhook endpoints\<close>

datatype message = Text string | ExceptionText py_exn

record response =
  status :: nat
  ok :: bool
  message :: "message option"

text \<open>
  A request carries the result of \<^verbatim>\<open>request.get_json(force=True, silent=True)\<close>:
  \<open>None\<close> when the body is not valid JSON, the decoded value otherwise.
\<close>

type_synonym request = "json option"

definition request_body :: "request \<Rightarrow> json" where
  "request_body req = py_or (case req of None \<Rightarrow> JNull | Some v \<Rightarrow> v) (JObj [])"

text \<open>The body of the \<^verbatim>\<open>try\<close> block of \<^verbatim>\<open>task\<close>.\<close>

definition task_try :: "request \<Rightarrow> disk \<Rightarrow> (py_exn + response) \<times> disk" where
  "task_try req d =
     (case request_body req of
        JObj body \<Rightarrow>
          (if \<not> is_review_task body then
             (Inr \<lparr>status = 200, ok = True,
                   message = Some (Text ''Task received (not a review task, ignored)'')\<rparr>, d)
           else
             (case extract_from_task_payload body of
                None \<Rightarrow>
                  (Inr \<lparr>status = 400, ok = False, message = Some (Text ''Missing kickoff_id'')\<rparr>, d)
              | Some extracted \<Rightarrow>
                  (case read_store d of
                     Inl e \<Rightarrow> (Inl e, d)
                   | Inr stored \<Rightarrow>
                       (case py_iter stored of
                          Inl e \<Rightarrow> (Inl e, d)
                        | Inr items \<Rightarrow>
                            (case without_approval (dict_get extracted ''execution_id'')
                                    (dict_get extracted ''task_id'') items of
                               Inl e \<Rightarrow> (Inl e, d)
                             | Inr data \<Rightarrow>
                                 (case write_store (JArr (data @ [JObj extracted])) d of
                                    (Inl e, d') \<Rightarrow> (Inl e, d')
                                  | (Inr _, d') \<Rightarrow>
                                      (Inr \<lparr>status = 200, ok = True,
                                            message = Some (Text ''Review task stored for approval'')\<rparr>,
                                       d')))))))
      | _ \<Rightarrow> (Inl AttributeError, d))"

definition task :: "request \<Rightarrow> disk \<Rightarrow> response \<times> disk" where
  "task req d =
     (case task_try req d of
        (Inl e, d') \<Rightarrow> (\<lparr>status = 500, ok = False, message = Some (ExceptionText e)\<rparr>, d')
      | (Inr r, d') \<Rightarrow> (r, d'))"

definition step :: "request \<Rightarrow> disk \<Rightarrow> response \<times> disk" where
  "step req d = (\<lparr>status = 200, ok = True, message = None\<rparr>, d)"

definition crew :: "request \<Rightarrow> disk \<Rightarrow> response \<times> disk" where
  "crew req d = (\<lparr>status = 200, ok = True, message = None\<rparr>, d)"

section \<open>Starting the listener\<close>









section \<open>Histories of store operations\<close>

text \<open>
  The store is changed by two operations: a delivery to \<^verbatim>\<open>POST /task\<close> and a call of
  \<^verbatim>\<open>remove_approval\<close>. A history is a list of them, run from left to right.
\<close>

datatype store_op = PostTask request | RemoveApproval json json

definition apply_op :: "store_op \<Rightarrow> disk \<Rightarrow> disk" where
  "apply_op op d =
     (case op of
        PostTask req \<Rightarrow> snd (task req d)
      | RemoveApproval execution_id task_id \<Rightarrow> snd (remove_approval execution_id task_id d))"

definition run_ops :: "store_op list \<Rightarrow> disk \<Rightarrow> disk" where
  "run_ops ops d = foldl (\<lambda>s op. apply_op op s) d ops"

text \<open>
  The record that a delivery upserts: the extracted record of a review task, and
  nothing for every other request.
\<close>

definition accepted :: "request \<Rightarrow> (string \<times> json) list option" where
  "accepted req =
     (case request_body req of
        JObj body \<Rightarrow> if is_review_task body then extract_from_task_payload body else None
      | _ \<Rightarrow> None)"

definition upserts :: "store_op \<Rightarrow> json \<Rightarrow> bool" where
  "upserts op a =
     (case op of
        PostTask req \<Rightarrow> (case accepted req of None \<Rightarrow> False | Some r \<Rightarrow> a = JObj r)
      | RemoveApproval _ _ \<Rightarrow> False)"

text \<open>
  An operation targets a stored record when the record has the pair of execution id and
  task id that the operation replaces or removes, compared as the code compares them.
\<close>

definition has_pair :: "json \<Rightarrow> json \<Rightarrow> json \<Rightarrow> bool" where
  "has_pair execution_id task_id a = (approval_matches execution_id task_id a = Inr True)"

definition targets :: "store_op \<Rightarrow> json \<Rightarrow> bool" where
  "targets op a =
     (case op of
        PostTask req \<Rightarrow>
          (case accepted req of
             None \<Rightarrow> False
           | Some r \<Rightarrow> has_pair (dict_get r ''execution_id'') (dict_get r ''task_id'') a)
      | RemoveApproval execution_id task_id \<Rightarrow> has_pair execution_id task_id a)"

definition field :: "json \<Rightarrow> string \<Rightarrow> json" where
  "field a k = (case a of JObj kvs \<Rightarrow> dict_get kvs k | _ \<Rightarrow> JNull)"

definition same_pair :: "json \<Rightarrow> json \<Rightarrow> bool" where
  "same_pair a b = has_pair (field b ''execution_id'') (field b ''task_id'') a"

text \<open>
  A value that comes from a JSON text has no dictionary with a repeated key; the
  association lists of the model allow them, so the property is named.
\<close>

fun well_formed :: "json \<Rightarrow> bool" where
  "well_formed (JArr xs) = list_all well_formed xs"
| "well_formed (JObj kvs) = (distinct (map fst kvs) \<and> list_all (\<lambda>kv. well_formed (snd kv)) kvs)"
| "well_formed _ = True"

text \<open>The contents of the store after one operation, as a list of records.\<close>

definition records_after :: "store_op \<Rightarrow> json list \<Rightarrow> json list" where
  "records_after op xs =
     (case op of
        PostTask req \<Rightarrow>
          (case accepted req of
             None \<Rightarrow> xs
           | Some r \<Rightarrow> filter (\<lambda>a. \<not> targets op a) xs @ [JObj r])
      | RemoveApproval _ _ \<Rightarrow> filter (\<lambda>a. \<not> targets op a) xs)"

text \<open>
  The state in which histories run: the file can be written and the store reads as a
  list of dictionaries.
\<close>

definition store_inv :: "disk \<Rightarrow> json list \<Rightarrow> bool" where
  "store_inv d xs \<longleftrightarrow> writable d \<and> read_store d = Inr (JArr xs) \<and> (\<forall>a\<in>set xs. isinstance_dict a)"

section \<open>Properties of the classifier\<close>






section \<open>Properties of the extraction\<close>









section \<open>Properties of the store and of the acknowledging endpoints\<close>



text \<open>
  Claim C10. Reading the store does not check the shape of what was decoded: whatever
  value the file holds is returned as it is, also a dictionary or a string. The empty
  list stands in only for a missing file, a decoding failure and an operating-system
  error (and is of course also returned when the file holds the empty list); any other
  exception raised while reading leaves the function.
\<close>

theorem read_store_returns_parsed_value:
  "(hitl_store d = Holds v \<longrightarrow> read_store d = Inr v \<and> get_pending_approvals d = Inr v)
   \<and> (read_store d = Inr (JArr []) \<longleftrightarrow>
        hitl_store d = Missing \<or> hitl_store d = Faulty JSONDecodeError
        \<or> hitl_store d = Faulty OSError \<or> hitl_store d = Holds (JArr []))
   \<and> (\<forall>e. hitl_store d = Faulty e \<and> e \<noteq> JSONDecodeError \<and> e \<noteq> OSError \<longrightarrow> read_store d = Inl e)
   \<and> read_store \<lparr>hitl_store = Holds (JObj [(''a'', JInt 1)]), writable = True\<rparr>
        = Inr (JObj [(''a'', JInt 1)])
   \<and> read_store \<lparr>hitl_store = Holds (JStr ''text''), writable = True\<rparr> = Inr (JStr ''text'')"
  by (auto simp: read_store_def get_pending_approvals_def split: store_file.splits)

theorem read_store_returns_parsed_value_witness:
  "get_pending_approvals \<lparr>hitl_store = Holds (JInt 3), writable = True\<rparr> = Inr (JInt 3)
   \<and> read_store \<lparr>hitl_store = Faulty UnicodeDecodeError, writable = True\<rparr> = Inl UnicodeDecodeError"
  using read_store_returns_parsed_value
    [of "\<lparr>hitl_store = Holds (JInt 3), writable = True\<rparr>" "JInt 3"]
    read_store_returns_parsed_value
    [of "\<lparr>hitl_store = Faulty UnicodeDecodeError, writable = True\<rparr>" "JNull"]
  by simp



text \<open>
  Claim C9. \<^verbatim>\<open>POST /step\<close> and \<^verbatim>\<open>POST /crew\<close> answer every request with status
  200 and the body \<^verbatim>\<open>{"ok": true}\<close>, and leave the store as it was.
\<close>

theorem step_crew_acknowledge:
  "step req d = (\<lparr>status = 200, ok = True, message = None\<rparr>, d)
   \<and> crew req d = (\<lparr>status = 200, ok = True, message = None\<rparr>, d)
   \<and> hitl_store (snd (step req d)) = hitl_store d
   \<and> hitl_store (snd (crew req d)) = hitl_store d
   \<and> get_pending_approvals (snd (step req d)) = get_pending_approvals d
   \<and> get_pending_approvals (snd (crew req d)) = get_pending_approvals d"
  by (simp add: step_def crew_def)

theorem step_crew_acknowledge_witness:
  "fst (step None \<lparr>hitl_store = Holds (JArr [JObj []]), writable = True\<rparr>)
     = \<lparr>status = 200, ok = True, message = None\<rparr>
   \<and> hitl_store (snd (crew (Some (JStr ''x'')) \<lparr>hitl_store = Holds (JArr [JObj []]), writable = True\<rparr>))
     = Holds (JArr [JObj []])"
  using step_crew_acknowledge [of None "\<lparr>hitl_store = Holds (JArr [JObj []]), writable = True\<rparr>"]
    step_crew_acknowledge [of "Some (JStr ''x'')" "\<lparr>hitl_store = Holds (JArr [JObj []]), writable = True\<rparr>"]
  by simp

section \<open>Properties of removal\<close>

lemma without_approval_no_match:
  "\<forall>a\<in>set xs. approval_matches e t a \<noteq> Inr True \<Longrightarrow>
     without_approval e t xs = Inr xs \<or> (\<exists>x. without_approval e t xs = Inl x)"
proof (induction xs)
  case Nil
  show ?case by simp
next
  case (Cons a xs)
  then have a: "approval_matches e t a \<noteq> Inr True"
    and rest: "without_approval e t xs = Inr xs \<or> (\<exists>x. without_approval e t xs = Inl x)"
    by simp_all
  show ?case
  proof (cases "approval_matches e t a")
    case (Inl x)
    then show ?thesis by simp
  next
    case (Inr m)
    with a have "\<not> m" by auto
    with Inr rest show ?thesis by auto
  qed
qed

text \<open>
  Claim C7. When the store holds a sequence and no stored record has both the given
  execution id and the given task id, \<^verbatim>\<open>remove_approval\<close> leaves the contents of
  the store as they were: a reader gets the same sequence afterwards.
\<close>

theorem remove_approval_absent_unchanged:
  assumes "read_store d = Inr (JArr xs)"
    and "\<forall>a\<in>set xs. approval_matches execution_id task_id a \<noteq> Inr True"
  shows "read_store (snd (remove_approval execution_id task_id d)) = Inr (JArr xs)
     \<and> get_pending_approvals (snd (remove_approval execution_id task_id d)) = get_pending_approvals d"
proof -
  from without_approval_no_match [OF assms(2)]
  consider "without_approval execution_id task_id xs = Inr xs"
    | x where "without_approval execution_id task_id xs = Inl x"
    by blast
  then have "read_store (snd (remove_approval execution_id task_id d)) = Inr (JArr xs)"
  proof cases
    case 1
    with assms(1) show ?thesis
      by (simp add: remove_approval_def py_iter_def write_store_def read_store_def)
  next
    case 2
    with assms(1) show ?thesis
      by (simp add: remove_approval_def py_iter_def)
  qed
  with assms(1) show ?thesis by (simp add: get_pending_approvals_def)
qed

theorem remove_approval_absent_unchanged_witness:
  "read_store (snd (remove_approval (JStr ''k2'') (JStr ''request_review'')
      \<lparr>hitl_store = Holds (JArr [JObj [(''execution_id'', JStr ''k1''),
                                        (''task_id'', JStr ''request_review'')]]),
       writable = True\<rparr>))
   = Inr (JArr [JObj [(''execution_id'', JStr ''k1''), (''task_id'', JStr ''request_review'')]])"
proof -
  let ?xs = "[JObj [(''execution_id'', JStr ''k1''), (''task_id'', JStr ''request_review'')]]"
  let ?d = "\<lparr>hitl_store = Holds (JArr ?xs), writable = True\<rparr>"
  have r: "read_store ?d = Inr (JArr ?xs)" by (simp add: read_store_def)
  have n: "\<forall>a\<in>set ?xs. approval_matches (JStr ''k2'') (JStr ''request_review'') a \<noteq> Inr True"
    by (simp add: approval_matches_def dict_get_def)
  from remove_approval_absent_unchanged [OF r n] show ?thesis by blast
qed


section \<open>Properties of the listener start\<close>






section \<open>Properties of the task endpoint\<close>

lemma request_body_None: "request_body None = JObj []"
  by (simp add: request_body_def py_or_def)










lemma task_non_dict:
  "request_body req = v \<Longrightarrow> \<not> isinstance_dict v \<Longrightarrow>
     task req d = (\<lparr>status = 500, ok = False, message = Some (ExceptionText AttributeError)\<rparr>, d)"
  by (cases v) (simp_all add: task_def task_try_def isinstance_dict_def)



section \<open>Properties of histories\<close>

lemma without_approval_dicts:
  "\<forall>a\<in>set xs. isinstance_dict a \<Longrightarrow>
     without_approval e t xs = Inr (filter (\<lambda>a. \<not> has_pair e t a) xs)"
proof (induction xs)
  case Nil
  show ?case by simp
next
  case (Cons a xs)
  then obtain kvs where a: "a = JObj kvs"
    by (cases a) (simp_all add: isinstance_dict_def)
  from Cons have "without_approval e t xs = Inr (filter (\<lambda>a. \<not> has_pair e t a) xs)"
    by simp
  with a show ?case
    by (simp add: approval_matches_def has_pair_def)
qed

lemma accepted_None_task: "accepted req = None \<Longrightarrow> snd (task req d) = d"
  by (auto simp: accepted_def task_def task_try_def split: json.splits if_splits)

lemma accepted_Some_task:
  assumes "accepted req = Some r" and "writable d" and "read_store d = Inr (JArr xs)"
    and "\<forall>a\<in>set xs. isinstance_dict a"
  shows "snd (task req d) = d\<lparr>hitl_store := Holds (JArr
           (filter (\<lambda>a. \<not> has_pair (dict_get r ''execution_id'') (dict_get r ''task_id'') a) xs
            @ [JObj r]))\<rparr>"
proof -
  from assms(1) obtain body where b: "request_body req = JObj body" "is_review_task body"
      "extract_from_task_payload body = Some r"
    by (auto simp: accepted_def split: json.splits if_splits)
  from assms(4) have w: "without_approval (dict_get r ''execution_id'') (dict_get r ''task_id'') xs
      = Inr (filter (\<lambda>a. \<not> has_pair (dict_get r ''execution_id'') (dict_get r ''task_id'') a) xs)"
    by (rule without_approval_dicts)
  from b assms(2,3) w show ?thesis
    by (simp add: task_def task_try_def py_iter_def write_store_def)
qed

lemma apply_op_inv:
  assumes "store_inv d xs"
  shows "store_inv (apply_op op d) (records_after op xs)"
proof (cases op)
  case (PostTask req)
  show ?thesis
  proof (cases "accepted req")
    case None
    with PostTask assms show ?thesis
      by (simp add: apply_op_def records_after_def accepted_None_task)
  next
    case (Some r)
    from assms have "snd (task req d) = d\<lparr>hitl_store := Holds (JArr
           (filter (\<lambda>a. \<not> has_pair (dict_get r ''execution_id'') (dict_get r ''task_id'') a) xs
            @ [JObj r]))\<rparr>"
      using accepted_Some_task [OF Some] by (simp add: store_inv_def)
    with PostTask Some assms show ?thesis
      by (simp add: apply_op_def records_after_def store_inv_def read_store_def targets_def
          isinstance_dict_def)
  qed
next
  case (RemoveApproval e t)
  from assms have "without_approval e t xs = Inr (filter (\<lambda>a. \<not> has_pair e t a) xs)"
    by (simp add: store_inv_def without_approval_dicts)
  with RemoveApproval assms show ?thesis
    by (simp add: apply_op_def records_after_def store_inv_def remove_approval_def py_iter_def
        write_store_def read_store_def targets_def)
qed

lemma run_ops_inv:
  "store_inv d xs \<Longrightarrow> store_inv (run_ops ops d) (foldl (\<lambda>ys op. records_after op ys) xs ops)"
  unfolding run_ops_def
  by (induction ops arbitrary: d xs) (simp_all add: apply_op_inv)

lemma records_after_mem:
  "a \<in> set (records_after op xs) \<longleftrightarrow> upserts op a \<or> (a \<in> set xs \<and> \<not> targets op a)"
  by (auto simp: records_after_def upserts_def targets_def split: store_op.splits option.splits)

lemma history_mem:
  "a \<in> set (foldl (\<lambda>ys op. records_after op ys) [] ops) \<longleftrightarrow>
     (\<exists>i<length ops. upserts (ops ! i) a \<and> (\<forall>j. i < j \<and> j < length ops \<longrightarrow> \<not> targets (ops ! j) a))"
proof (induction ops rule: rev_induct)
  case Nil
  show ?case by simp
next
  case (snoc op ops)
  let ?xs = "foldl (\<lambda>ys op. records_after op ys) [] ops"
  have m: "a \<in> set (foldl (\<lambda>ys op. records_after op ys) [] (ops @ [op])) \<longleftrightarrow>
      upserts op a \<or> (a \<in> set ?xs \<and> \<not> targets op a)"
    by (simp add: records_after_mem)
  show ?case
  proof
    assume "a \<in> set (foldl (\<lambda>ys op. records_after op ys) [] (ops @ [op]))"
    with m consider "upserts op a" | "a \<in> set ?xs" "\<not> targets op a" by blast
    then show "\<exists>i<length (ops @ [op]). upserts ((ops @ [op]) ! i) a \<and>
        (\<forall>j. i < j \<and> j < length (ops @ [op]) \<longrightarrow> \<not> targets ((ops @ [op]) ! j) a)"
    proof cases
      case 1
      then have "upserts ((ops @ [op]) ! length ops) a \<and>
        (\<forall>j. length ops < j \<and> j < length (ops @ [op]) \<longrightarrow> \<not> targets ((ops @ [op]) ! j) a)"
        by auto
      then show ?thesis by (intro exI [of _ "length ops"]) simp
    next
      case 2
      with snoc.IH obtain i where i: "i < length ops" "upserts (ops ! i) a"
          "\<forall>j. i < j \<and> j < length ops \<longrightarrow> \<not> targets (ops ! j) a"
        by blast
      have "\<forall>j. i < j \<and> j < length (ops @ [op]) \<longrightarrow> \<not> targets ((ops @ [op]) ! j) a"
      proof (intro allI impI)
        fix j assume j: "i < j \<and> j < length (ops @ [op])"
        show "\<not> targets ((ops @ [op]) ! j) a"
        proof (cases "j < length ops")
          case True
          with i(3) j show ?thesis by (simp add: nth_append)
        next
          case False
          with j have "j = length ops" by simp
          with 2(2) show ?thesis by simp
        qed
      qed
      with i(1,2) show ?thesis
        by (intro exI [of _ i]) (simp add: nth_append)
    qed
  next
    assume "\<exists>i<length (ops @ [op]). upserts ((ops @ [op]) ! i) a \<and>
        (\<forall>j. i < j \<and> j < length (ops @ [op]) \<longrightarrow> \<not> targets ((ops @ [op]) ! j) a)"
    then obtain i where i: "i < length (ops @ [op])" "upserts ((ops @ [op]) ! i) a"
        "\<forall>j. i < j \<and> j < length (ops @ [op]) \<longrightarrow> \<not> targets ((ops @ [op]) ! j) a"
      by blast
    show "a \<in> set (foldl (\<lambda>ys op. records_after op ys) [] (ops @ [op]))"
    proof (cases "i < length ops")
      case False
      with i(1) have "i = length ops" by simp
      with i(2) have "upserts op a" by simp
      with m show ?thesis by blast
    next
      case True
      with i(3) have last: "\<not> targets op a"
        by (auto dest: spec [of _ "length ops"])
      have "\<forall>j. i < j \<and> j < length ops \<longrightarrow> \<not> targets (ops ! j) a"
      proof (intro allI impI)
        fix j assume j: "i < j \<and> j < length ops"
        with i(3) have "\<not> targets ((ops @ [op]) ! j) a" by simp
        with j show "\<not> targets (ops ! j) a" by (simp add: nth_append)
      qed
      with True i(2) have "a \<in> set ?xs"
        using snoc.IH by (auto simp: nth_append)
      with last m show ?thesis by blast
    qed
  qed
qed

lemma records_after_pairs:
  assumes "sorted_wrt (\<lambda>a b. \<not> same_pair a b) xs"
  shows "sorted_wrt (\<lambda>a b. \<not> same_pair a b) (records_after op xs)"
proof (cases op)
  case (RemoveApproval e t)
  with assms show ?thesis by (simp add: records_after_def sorted_wrt_filter)
next
  case (PostTask req)
  show ?thesis
  proof (cases "accepted req")
    case None
    with PostTask assms show ?thesis by (simp add: records_after_def)
  next
    case (Some r)
    have "\<forall>a. \<not> targets op a \<longrightarrow> \<not> same_pair a (JObj r)"
      using PostTask Some by (simp add: targets_def same_pair_def field_def)
    with PostTask Some assms show ?thesis
      by (simp add: records_after_def sorted_wrt_append sorted_wrt_filter)
  qed
qed

lemma history_pairs:
  "sorted_wrt (\<lambda>a b. \<not> same_pair a b) (foldl (\<lambda>ys op. records_after op ys) [] ops)"
  by (induction ops rule: rev_induct) (simp_all add: records_after_pairs)

lemma py_eq_list_refl: "\<forall>x\<in>set xs. py_eq x x \<Longrightarrow> py_eq_list xs xs"
  by (induction xs) simp_all

lemma py_eq_items_refl:
  "distinct (map fst b) \<Longrightarrow> set a \<subseteq> set b \<Longrightarrow> \<forall>kv\<in>set a. py_eq (snd kv) (snd kv) \<Longrightarrow>
     py_eq_items a b"
proof (induction a)
  case Nil
  show ?case by simp
next
  case (Cons kv a)
  obtain k v where kv: "kv = (k, v)" by (cases kv)
  with Cons.prems have m: "map_of b k = Some v" by simp
  from Cons have "py_eq_items a b" by simp
  moreover from Cons.prems kv have "py_eq v v" by simp
  ultimately show ?case using kv m by simp
qed

lemma py_eq_refl: "well_formed v \<Longrightarrow> py_eq v v"
proof (induction v)
  case (JArr xs)
  then have "\<forall>x\<in>set xs. py_eq x x" by (simp add: list_all_iff)
  then show ?case by (simp add: py_eq_list_refl)
next
  case (JObj kvs)
  then have "\<forall>kv\<in>set kvs. py_eq (snd kv) (snd kv)"
    by (auto simp: list_all_iff snds.simps)
  with JObj.prems show ?case by (simp add: py_eq_items_refl)
qed simp_all

lemma py_eq_JStr: "py_eq v (JStr s) \<longleftrightarrow> v = JStr s"
  by (cases v) auto

lemma same_pair_dicts:
  "isinstance_dict a \<Longrightarrow>
     same_pair a b \<longleftrightarrow> py_eq (field a ''execution_id'') (field b ''execution_id'')
                      \<and> py_eq (field a ''task_id'') (field b ''task_id'')"
  by (cases a) (simp_all add: isinstance_dict_def same_pair_def has_pair_def approval_matches_def
      field_def)

text \<open>
  Claim C1. Run any history of deliveries to \<^verbatim>\<open>POST /task\<close> and calls of
  \<^verbatim>\<open>remove_approval\<close> from an empty, writable store. Then the store reads as a list
  of records in which a record is present exactly when some delivery upserted it and
  no later operation of the history replaced or removed its pair of execution id and
  task id: the record of the most recent upsert of each pair that was not removed
  afterwards. No two records of the list have the same pair, neither as the code
  compares pairs nor, for ids as JSON gives them, as equal values.
\<close>

theorem store_history:
  assumes "writable d" and "get_pending_approvals d = Inr (JArr [])"
  shows "\<exists>xs. get_pending_approvals (run_ops ops d) = Inr (JArr xs)
     \<and> (\<forall>a. a \<in> set xs \<longleftrightarrow>
          (\<exists>i<length ops. upserts (ops ! i) a
             \<and> (\<forall>j. i < j \<and> j < length ops \<longrightarrow> \<not> targets (ops ! j) a)))
     \<and> (\<forall>i j. i < j \<and> j < length xs \<longrightarrow> \<not> same_pair (xs ! i) (xs ! j))
     \<and> (\<forall>i j. i < j \<and> j < length xs
            \<and> well_formed (field (xs ! j) ''execution_id'')
            \<and> well_formed (field (xs ! j) ''task_id'') \<longrightarrow>
          \<not> (field (xs ! i) ''execution_id'' = field (xs ! j) ''execution_id''
             \<and> field (xs ! i) ''task_id'' = field (xs ! j) ''task_id''))"
proof -
  let ?xs = "foldl (\<lambda>ys op. records_after op ys) [] ops"
  from assms have "store_inv d []"
    by (simp add: store_inv_def get_pending_approvals_def)
  then have inv: "store_inv (run_ops ops d) ?xs"
    by (rule run_ops_inv)
  then have r: "get_pending_approvals (run_ops ops d) = Inr (JArr ?xs)"
    and dicts: "\<forall>a\<in>set ?xs. isinstance_dict a"
    by (simp_all add: store_inv_def get_pending_approvals_def)
  have pairs: "\<forall>i j. i < j \<and> j < length ?xs \<longrightarrow> \<not> same_pair (?xs ! i) (?xs ! j)"
    using history_pairs [of ops] by (simp add: sorted_wrt_iff_nth_less)
  have strict: "\<forall>i j. i < j \<and> j < length ?xs
            \<and> well_formed (field (?xs ! j) ''execution_id'')
            \<and> well_formed (field (?xs ! j) ''task_id'') \<longrightarrow>
          \<not> (field (?xs ! i) ''execution_id'' = field (?xs ! j) ''execution_id''
             \<and> field (?xs ! i) ''task_id'' = field (?xs ! j) ''task_id'')"
  proof (intro allI impI notI)
    fix i j
    assume h: "i < j \<and> j < length ?xs
            \<and> well_formed (field (?xs ! j) ''execution_id'')
            \<and> well_formed (field (?xs ! j) ''task_id'')"
      and e: "field (?xs ! i) ''execution_id'' = field (?xs ! j) ''execution_id''
             \<and> field (?xs ! i) ''task_id'' = field (?xs ! j) ''task_id''"
    from h have "?xs ! i \<in> set ?xs" by simp
    with dicts have "isinstance_dict (?xs ! i)" by blast
    moreover from h e have "py_eq (field (?xs ! i) ''execution_id'') (field (?xs ! j) ''execution_id'')
        \<and> py_eq (field (?xs ! i) ''task_id'') (field (?xs ! j) ''task_id'')"
      by (simp add: py_eq_refl)
    ultimately have "same_pair (?xs ! i) (?xs ! j)"
      by (simp add: same_pair_dicts)
    with pairs h show False by blast
  qed
  from r history_mem [of _ ops] pairs strict show ?thesis by blast
qed

theorem store_history_witness:
  "writable \<lparr>hitl_store = Missing, writable = True\<rparr>
   \<and> get_pending_approvals \<lparr>hitl_store = Missing, writable = True\<rparr> = Inr (JArr [])
   \<and> get_pending_approvals (run_ops
        [PostTask (Some (JObj [(''kickoff_id'', JStr ''k1''), (''name'', JStr ''request_review''),
                               (''output'', JStr ''Hi'')])),
         PostTask (Some (JObj [(''kickoff_id'', JStr ''k1''), (''name'', JStr ''request_review''),
                               (''output'', JStr ''Bye'')])),
         PostTask (Some (JObj [(''name'', JStr ''send_reply'')])),
         RemoveApproval (JStr ''k9'') (JStr ''request_review'')]
        \<lparr>hitl_store = Missing, writable = True\<rparr>)
     = Inr (JArr [JObj [(''execution_id'', JStr ''k1''), (''task_id'', JStr ''request_review''),
                        (''content'', JStr ''Bye''),
                        (''raw'', JObj [(''kickoff_id'', JStr ''k1''),
                                       (''name'', JStr ''request_review''),
                                       (''output'', JStr ''Bye'')])]])
   \<and> (\<exists>xs. get_pending_approvals (run_ops
        [PostTask (Some (JObj [(''kickoff_id'', JStr ''k1''), (''name'', JStr ''request_review''),
                               (''output'', JStr ''Hi'')])),
         PostTask (Some (JObj [(''kickoff_id'', JStr ''k1''), (''name'', JStr ''request_review''),
                               (''output'', JStr ''Bye'')])),
         PostTask (Some (JObj [(''name'', JStr ''send_reply'')])),
         RemoveApproval (JStr ''k9'') (JStr ''request_review'')]
        \<lparr>hitl_store = Missing, writable = True\<rparr>) = Inr (JArr xs)
      \<and> length xs = 1
      \<and> (\<forall>i j. i < j \<and> j < length xs \<longrightarrow> \<not> same_pair (xs ! i) (xs ! j)))"
proof -
  let ?d = "\<lparr>hitl_store = Missing, writable = True\<rparr>"
  let ?ops = "[PostTask (Some (JObj [(''kickoff_id'', JStr ''k1''), (''name'', JStr ''request_review''),
                               (''output'', JStr ''Hi'')])),
         PostTask (Some (JObj [(''kickoff_id'', JStr ''k1''), (''name'', JStr ''request_review''),
                               (''output'', JStr ''Bye'')])),
         PostTask (Some (JObj [(''name'', JStr ''send_reply'')])),
         RemoveApproval (JStr ''k9'') (JStr ''request_review'')]"
  have w: "writable ?d" by simp
  have e: "get_pending_approvals ?d = Inr (JArr [])"
    by (simp add: get_pending_approvals_def read_store_def)
  have v: "get_pending_approvals (run_ops ?ops ?d)
     = Inr (JArr [JObj [(''execution_id'', JStr ''k1''), (''task_id'', JStr ''request_review''),
                        (''content'', JStr ''Bye''),
                        (''raw'', JObj [(''kickoff_id'', JStr ''k1''),
                                       (''name'', JStr ''request_review''),
                                       (''output'', JStr ''Bye'')])]])"
    by code_simp
  from store_history [OF w e, of ?ops] obtain xs where
    xs: "get_pending_approvals (run_ops ?ops ?d) = Inr (JArr xs)"
    and p: "\<forall>i j. i < j \<and> j < length xs \<longrightarrow> \<not> same_pair (xs ! i) (xs ! j)"
    by blast
  from xs v have "xs = [JObj [(''execution_id'', JStr ''k1''), (''task_id'', JStr ''request_review''),
                        (''content'', JStr ''Bye''),
                        (''raw'', JObj [(''kickoff_id'', JStr ''k1''),
                                       (''name'', JStr ''request_review''),
                                       (''output'', JStr ''Bye'')])]]"
    by simp
  then have "length xs = 1" by simp
  with xs p have "\<exists>xs. get_pending_approvals (run_ops ?ops ?d) = Inr (JArr xs)
      \<and> length xs = 1
      \<and> (\<forall>i j. i < j \<and> j < length xs \<longrightarrow> \<not> same_pair (xs ! i) (xs ! j))"
    by blast
  with w e v show ?thesis by blast
qed

end
